theory Spec2Isabelle
  imports Complex_Main
begin

section \<open>Data model\<close>

text \<open>
  The reader is a TypeScript/React program. A JavaScript \<open>number\<close> is modelled as an
  exact real (no rounding, no NaN); the integer-valued DOM measurements \<open>clientWidth\<close> and
  \<open>scrollWidth\<close> (IDL type \<open>long\<close>) and the results of \<open>Math.floor\<close> and \<open>Math.ceil\<close>
  are \<open>int\<close>. A token index is produced by \<open>idx++\<close> from 0 in \<open>buildParagraphs\<close> and is a
  \<open>nat\<close>.
\<close>

type_synonym number = real

record Token =
  idx :: nat
  tok_text :: string

record Paragraph =
  p_id :: string
  p_tokens :: "Token list"

record LoadResult =
  r_docId :: string
  r_tokens :: "Token list"
  r_paragraphs :: "Paragraph list"
  r_title :: "string option"

text \<open>
  The part of the DOM that \<open>paginate.ts\<close> reads. A rectangle is reduced to its \<open>left\<close>
  edge, the only field used. An element has its \<open>data-idx\<close> attribute (absent, or a string),
  the list returned by \<open>getClientRects()\<close> and the result of \<open>getBoundingClientRect()\<close>.
  The flow has its \<open>scrollWidth\<close> and its descendant elements in document order; the
  viewport has \<open>clientWidth\<close>, \<open>scrollLeft\<close> and its bounding rectangle.
\<close>

record DOMRect =
  left :: number

record Element =
  data_idx :: "string option"
  clientRects :: "DOMRect list"
  boundingClientRect :: DOMRect

record Flow =
  scrollWidth :: int
  descendants :: "Element list"

record Viewport =
  clientWidth :: int
  scrollLeft :: number
  viewportRect :: DOMRect

section \<open>paginate.ts\<close>

definition getPageCount :: "Viewport \<Rightarrow> Flow \<Rightarrow> int" where
  "getPageCount viewport flow =
     (let viewportWidth = max 1 (clientWidth viewport);
          totalWidth = scrollWidth flow
      in max 1 \<lceil>real_of_int totalWidth / real_of_int viewportWidth\<rceil>)"

definition getTokenPageFromElement :: "Element \<Rightarrow> Viewport \<Rightarrow> int" where
  "getTokenPageFromElement el viewport =
     (let rect = (case clientRects el of [] \<Rightarrow> boundingClientRect el | r # _ \<Rightarrow> r);
          vRect = viewportRect viewport;
          relativeLeft = left rect - left vRect + scrollLeft viewport;
          width = max 1 (clientWidth viewport)
      in max 0 \<lfloor>relativeLeft / real_of_int width\<rfloor>)"

text \<open>
  The template literal \<open>`${tokenIdx}`\<close> renders a non-negative integer in decimal, without
  leading zeros (JavaScript does so below \<open>10^21\<close>). \<open>digitOf\<close> is only applied to a
  number below 10.
\<close>

definition digitOf :: "nat \<Rightarrow> char" where
  "digitOf d = ''0123456789'' ! d"

function toStringNat :: "nat \<Rightarrow> string" where
  "toStringNat n = (if n < 10 then [digitOf n] else toStringNat (n div 10) @ [digitOf (n mod 10)])"
  by pat_completeness auto
termination
  by (relation "measure (\<lambda>n. n)") auto

declare toStringNat.simps [simp del]

text \<open>
  \<open>flow.querySelector('[data-idx="s"]')\<close>: the first descendant, in document order, whose
  \<open>data-idx\<close> attribute is the string \<open>s\<close>.
\<close>

definition querySelectorDataIdx :: "Flow \<Rightarrow> string \<Rightarrow> Element option" where
  "querySelectorDataIdx flow s = find (\<lambda>el. data_idx el = Some s) (descendants flow)"

definition getTokenPageIndex :: "nat \<Rightarrow> Flow \<Rightarrow> Viewport \<Rightarrow> int option" where
  "getTokenPageIndex tokenIdx flow viewport =
     (case querySelectorDataIdx flow (toStringNat tokenIdx) of
        None \<Rightarrow> None
      | Some el \<Rightarrow> Some (getTokenPageFromElement el viewport))"

fun findAnchorTokenIndex :: "Token list \<Rightarrow> Flow \<Rightarrow> Viewport \<Rightarrow> number \<Rightarrow> nat option" where
  "findAnchorTokenIndex [] flow viewport pageIndex = None"
| "findAnchorTokenIndex (token # rest) flow viewport pageIndex =
     (case querySelectorDataIdx flow (toStringNat (idx token)) of
        None \<Rightarrow> findAnchorTokenIndex rest flow viewport pageIndex
      | Some el \<Rightarrow>
          if real_of_int (getTokenPageFromElement el viewport) = pageIndex then Some (idx token)
          else findAnchorTokenIndex rest flow viewport pageIndex)"

text \<open>
  \<open>countWordsForPage\<close> computes the page of each element inline; the loop body, with the
  running \<open>count\<close>, is \<open>countWordsStep\<close>.
\<close>

definition countWordsStep :: "Flow \<Rightarrow> Viewport \<Rightarrow> number \<Rightarrow> int \<Rightarrow> DOMRect \<Rightarrow> Token \<Rightarrow> nat \<Rightarrow> nat" where
  "countWordsStep flow viewport pageIndex width vRect token count =
     (case querySelectorDataIdx flow (toStringNat (idx token)) of
        None \<Rightarrow> count
      | Some el \<Rightarrow>
          (let rect = (case clientRects el of [] \<Rightarrow> boundingClientRect el | r # _ \<Rightarrow> r);
               relativeLeft = left rect - left vRect + scrollLeft viewport;
               tokenPage = max 0 \<lfloor>relativeLeft / real_of_int width\<rfloor>
           in if real_of_int tokenPage = pageIndex then count + 1 else count))"

definition countWordsForPage :: "Token list \<Rightarrow> Flow \<Rightarrow> Viewport \<Rightarrow> number \<Rightarrow> nat" where
  "countWordsForPage tokens flow viewport pageIndex =
     (let width = max 1 (clientWidth viewport);
          vRect = viewportRect viewport
      in fold (countWordsStep flow viewport pageIndex width vRect) tokens 0)"

section \<open>The element-collection variant of the Layout Probe\<close>

text \<open>
  The second implementation collects the elements once. \<open>Number(s)\<close> is modelled on the
  strings of decimal digits (\<open>Number("")\<close> is 0, \<open>Number("007")\<close> is 7); every other string
  is treated as not a number, so that signs, fractions, exponents, radix prefixes and
  surrounding white space are outside the model.
\<close>

definition digitValue :: "char \<Rightarrow> nat option" where
  "digitValue c = map_of (zip ''0123456789'' [0, 1, 2, 3, 4, 5, 6, 7, 8, 9]) c"

fun parseDigits :: "nat \<Rightarrow> string \<Rightarrow> nat option" where
  "parseDigits acc [] = Some acc"
| "parseDigits acc (c # cs) =
     (case digitValue c of None \<Rightarrow> None | Some d \<Rightarrow> parseDigits (10 * acc + d) cs)"

definition jsNumber :: "string \<Rightarrow> nat option" where
  "jsNumber s = parseDigits 0 s"

record TokenElements =
  ordered :: "Element list"
  byIndex :: "nat \<rightharpoonup> Element"

definition collectStep :: "Element \<Rightarrow> (nat \<rightharpoonup> Element) \<Rightarrow> (nat \<rightharpoonup> Element)" where
  "collectStep el m =
     (case data_idx el of
        None \<Rightarrow> m
      | Some rawIdx \<Rightarrow>
          if rawIdx = [] then m
          else (case jsNumber rawIdx of None \<Rightarrow> m | Some i \<Rightarrow> m(i \<mapsto> el)))"

definition collectTokenElements :: "Flow \<Rightarrow> TokenElements" where
  "collectTokenElements flow =
     (let elements = filter (\<lambda>el. data_idx el \<noteq> None) (descendants flow)
      in \<lparr>ordered = elements, byIndex = fold collectStep elements Map.empty\<rparr>)"

definition getTokenPageIndex_map :: "nat \<Rightarrow> (nat \<rightharpoonup> Element) \<Rightarrow> Viewport \<Rightarrow> int option" where
  "getTokenPageIndex_map tokenIdx tokenElements viewport =
     (case tokenElements tokenIdx of
        None \<Rightarrow> None
      | Some el \<Rightarrow> Some (getTokenPageFromElement el viewport))"

fun findAnchorTokenIndex_ordered :: "Element list \<Rightarrow> Viewport \<Rightarrow> number \<Rightarrow> nat option" where
  "findAnchorTokenIndex_ordered [] viewport pageIndex = None"
| "findAnchorTokenIndex_ordered (el # rest) viewport pageIndex =
     (if real_of_int (getTokenPageFromElement el viewport) = pageIndex then
        (case (case data_idx el of None \<Rightarrow> None | Some rawIdx \<Rightarrow> jsNumber rawIdx) of
           Some i \<Rightarrow> Some i
         | None \<Rightarrow> findAnchorTokenIndex_ordered rest viewport pageIndex)
      else findAnchorTokenIndex_ordered rest viewport pageIndex)"

definition countWordsForPage_ordered :: "Element list \<Rightarrow> Viewport \<Rightarrow> number \<Rightarrow> nat" where
  "countWordsForPage_ordered orderedElements viewport pageIndex =
     fold (\<lambda>el count.
             if real_of_int (getTokenPageFromElement el viewport) = pageIndex then count + 1
             else count)
          orderedElements 0"

section \<open>The reading-position store\<close>

text \<open>
  \<open>localStorage\<close> maps a key to a stored text. The text is represented by what
  \<open>JSON.parse\<close> makes of it: \<open>Unparsable\<close> when it throws (the empty text included, which
  \<open>restoreReadingState\<close> rejects before parsing), or the parsed value. An object is the
  list of its properties.
\<close>

datatype json =
    JNull
  | JBool bool
  | JNum number
  | JStr string
  | JArr "json list"
  | JObj "(string \<times> json) list"

datatype stored = Unparsable | Parsed json

type_synonym localStorage = "string \<rightharpoonup> stored"

record ReadingState =
  rs_pageIndex :: number
  fontSizePx :: number

definition STORAGE_PREFIX :: string where
  "STORAGE_PREFIX = ''reflow-reader:''"

text \<open>
  A property read on \<open>null\<close> throws and is caught; on any other value that is not an object
  with the property it gives \<open>undefined\<close>, whose \<open>typeof\<close> is not \<open>'number'\<close>.
\<close>

definition restoreReadingState :: "localStorage \<Rightarrow> string \<Rightarrow> ReadingState option" where
  "restoreReadingState storage docId =
     (case storage (STORAGE_PREFIX @ docId) of
        None \<Rightarrow> None
      | Some Unparsable \<Rightarrow> None
      | Some (Parsed parsed) \<Rightarrow>
          (case parsed of
             JObj props \<Rightarrow>
               (case (map_of props ''pageIndex'', map_of props ''fontSizePx'') of
                  (Some (JNum p), Some (JNum f)) \<Rightarrow> Some \<lparr>rs_pageIndex = p, fontSizePx = f\<rparr>
                | _ \<Rightarrow> None)
           | _ \<Rightarrow> None))"

section \<open>App.tsx\<close>

definition DEFAULT_FONT_SIZE :: number where "DEFAULT_FONT_SIZE = 18"
definition MIN_FONT :: number where "MIN_FONT = 14"
definition MAX_FONT :: number where "MAX_FONT = 26"

definition clamp :: "number \<Rightarrow> number \<Rightarrow> number \<Rightarrow> number" where
  "clamp v lo hi = min (max v lo) hi"

text \<open>
  The component's state cells and its two refs \<open>anchorTokenRef\<close> and \<open>pendingPageRef\<close>.
  The refs to the DOM nodes, \<open>flowRef.current\<close> and \<open>viewportRef.current\<close>, are passed to
  each operation as options (\<open>None\<close> is \<open>null\<close>).
\<close>

record AppState =
  tokens :: "Token list"
  paragraphs :: "Paragraph list"
  docId :: "string option"
  docTitle :: "string option"
  pageCount :: int
  pageIndex :: number
  fontSize :: number
  wordsOnPage :: nat
  loadingProgress :: number
  isLoading :: bool
  error :: "string option"
  anchorTokenRef :: "nat option"
  pendingPageRef :: "number option"

definition initialState :: AppState where
  "initialState =
     \<lparr>tokens = [], paragraphs = [], docId = None, docTitle = None, pageCount = 1,
      pageIndex = 0, fontSize = DEFAULT_FONT_SIZE, wordsOnPage = 0, loadingProgress = 0,
      isLoading = False, error = None, anchorTokenRef = None, pendingPageRef = None\<rparr>"

text \<open>\<open>scrollToPage\<close> returns the \<open>left\<close> it scrolls to, or nothing without a viewport.\<close>

definition scrollToPage_clampedIndex :: "AppState \<Rightarrow> number \<Rightarrow> number" where
  "scrollToPage_clampedIndex st index = clamp index 0 (max 0 (real_of_int (pageCount st - 1)))"

definition scrollToPage :: "Viewport option \<Rightarrow> AppState \<Rightarrow> number \<Rightarrow> number option" where
  "scrollToPage viewportRef st index =
     (case viewportRef of
        None \<Rightarrow> None
      | Some viewport \<Rightarrow>
          Some (scrollToPage_clampedIndex st index * real_of_int (clientWidth viewport)))"

definition handlePrev :: "Viewport option \<Rightarrow> AppState \<Rightarrow> number option" where
  "handlePrev viewportRef st = scrollToPage viewportRef st (pageIndex st - 1)"

definition handleNext :: "Viewport option \<Rightarrow> AppState \<Rightarrow> number option" where
  "handleNext viewportRef st = scrollToPage viewportRef st (pageIndex st + 1)"

definition handlePageSelect :: "Viewport option \<Rightarrow> AppState \<Rightarrow> number \<Rightarrow> number option" where
  "handlePageSelect viewportRef st v = scrollToPage viewportRef st v"

definition captureAnchor :: "Flow option \<Rightarrow> Viewport option \<Rightarrow> AppState \<Rightarrow> nat option" where
  "captureAnchor flowRef viewportRef st =
     (case (flowRef, viewportRef) of
        (Some flow, Some viewport) \<Rightarrow>
          if tokens st = [] then None
          else findAnchorTokenIndex (tokens st) flow viewport (pageIndex st)
      | _ \<Rightarrow> None)"

definition onFontSizeChange :: "Flow option \<Rightarrow> Viewport option \<Rightarrow> AppState \<Rightarrow> number \<Rightarrow> AppState" where
  "onFontSizeChange flowRef viewportRef st v =
     st\<lparr>anchorTokenRef := captureAnchor flowRef viewportRef st, fontSize := v\<rparr>"

definition updateWordsForPage :: "Flow option \<Rightarrow> Viewport option \<Rightarrow> AppState \<Rightarrow> number \<Rightarrow> AppState" where
  "updateWordsForPage flowRef viewportRef st page =
     (case (flowRef, viewportRef) of
        (Some flow, Some viewport) \<Rightarrow>
          if tokens st = [] then st\<lparr>wordsOnPage := 0\<rparr>
          else st\<lparr>wordsOnPage := countWordsForPage (tokens st) flow viewport page\<rparr>
      | _ \<Rightarrow> st\<lparr>wordsOnPage := 0\<rparr>)"

text \<open>
  The layout effect that settles the page after a change of font size, page index, tokens
  or viewport size. It returns the new state and the \<open>targetPage\<close> handed to the deferred
  \<open>scrollToPage\<close> and \<open>updateWordsForPage\<close>; without a flow, a viewport or tokens it
  returns early and there is no target page.
\<close>

definition settle :: "Flow option \<Rightarrow> Viewport option \<Rightarrow> AppState \<Rightarrow> AppState \<times> number option" where
  "settle flowRef viewportRef st =
     (case (flowRef, viewportRef) of
        (Some flow, Some viewport) \<Rightarrow>
          if tokens st = [] then (st\<lparr>pageCount := 1, wordsOnPage := 0\<rparr>, None)
          else
            (let newPageCount = getPageCount viewport flow;
                 hi = real_of_int (newPageCount - 1);
                 targetPage0 = clamp (pageIndex st) 0 hi
             in case pendingPageRef st of
                  Some pending \<Rightarrow>
                    (let targetPage = clamp pending 0 hi
                     in (st\<lparr>pageCount := newPageCount, pendingPageRef := None,
                             pageIndex := targetPage\<rparr>, Some targetPage))
                | None \<Rightarrow>
                    (case anchorTokenRef st of
                       Some anchor \<Rightarrow>
                         (let targetPage =
                                (case getTokenPageIndex anchor flow viewport of
                                   Some anchorPage \<Rightarrow> clamp (real_of_int anchorPage) 0 hi
                                 | None \<Rightarrow> targetPage0)
                          in (st\<lparr>pageCount := newPageCount, anchorTokenRef := None,
                                  pageIndex := targetPage\<rparr>, Some targetPage))
                     | None \<Rightarrow>
                         (st\<lparr>pageCount := newPageCount, pageIndex := targetPage0\<rparr>,
                          Some targetPage0)))
      | _ \<Rightarrow> (st\<lparr>pageCount := 1, wordsOnPage := 0\<rparr>, None))"

definition loadResultIntoState :: "localStorage \<Rightarrow> AppState \<Rightarrow> LoadResult \<Rightarrow> AppState" where
  "loadResultIntoState storage st result =
     (let st1 = st\<lparr>tokens := r_tokens result, paragraphs := r_paragraphs result,
                   docId := Some (r_docId result), docTitle := r_title result\<rparr>
      in case restoreReadingState storage (r_docId result) of
           Some restored \<Rightarrow>
             st1\<lparr>fontSize := fontSizePx restored,
                 pendingPageRef := Some (rs_pageIndex restored),
                 pageIndex := rs_pageIndex restored\<rparr>
         | None \<Rightarrow>
             st1\<lparr>fontSize := DEFAULT_FONT_SIZE, pendingPageRef := Some 0, pageIndex := 0\<rparr>)"

text \<open>
  \<open>handleLoad\<close> runs in two parts, before and after \<open>await loader()\<close>. The loader is called
  once; its promise either resolves with a result or rejects with a thrown value, which
  is an \<open>Error\<close> with its message or something else.
\<close>

datatype thrown = ErrorObject string | NotAnError

datatype outcome = Resolved LoadResult | Rejected thrown

definition handleLoad_begin :: "AppState \<Rightarrow> AppState" where
  "handleLoad_begin st = st\<lparr>isLoading := True, error := None, loadingProgress := 0\<rparr>"

definition handleLoad_settled :: "localStorage \<Rightarrow> AppState \<Rightarrow> outcome \<Rightarrow> AppState" where
  "handleLoad_settled storage st out =
     (case out of
        Resolved result \<Rightarrow>
          (loadResultIntoState storage st result)\<lparr>loadingProgress := 1, isLoading := False\<rparr>
      | Rejected err \<Rightarrow>
          st\<lparr>error := Some (case err of ErrorObject message \<Rightarrow> message
                                       | NotAnError \<Rightarrow> ''Failed to load PDF''),
             tokens := [], paragraphs := [], docId := None, docTitle := None,
             wordsOnPage := 0, isLoading := False\<rparr>)"

text \<open>
  Several loads can be in flight: each call of \<open>handleLoad\<close> is a \<open>LoadStart\<close>, and the
  continuation after its \<open>await\<close> is a \<open>LoadFinish\<close> with the loader's outcome. The number
  names the load; the component keeps no record of it. The events of a run are applied in
  the order in which they happen.
\<close>

datatype event = LoadStart nat | LoadFinish nat outcome

fun step :: "localStorage \<Rightarrow> AppState \<Rightarrow> event \<Rightarrow> AppState" where
  "step storage st (LoadStart n) = handleLoad_begin st"
| "step storage st (LoadFinish n out) = handleLoad_settled storage st out"

definition run :: "localStorage \<Rightarrow> AppState \<Rightarrow> event list \<Rightarrow> AppState" where
  "run storage st evs = foldl (step storage) st evs"

section \<open>A sample layout\<close>

text \<open>
  A viewport 800 wide and a flow of four page columns: a paragraph element without
  \<open>data-idx\<close> and four token spans, the last two in the third column.
\<close>

definition span :: "string \<Rightarrow> number \<Rightarrow> Element" where
  "span s x = \<lparr>data_idx = Some s, clientRects = [\<lparr>left = x\<rparr>], boundingClientRect = \<lparr>left = x\<rparr>\<rparr>"

definition sampleViewport :: Viewport where
  "sampleViewport = \<lparr>clientWidth = 800, scrollLeft = 0, viewportRect = \<lparr>left = 0\<rparr>\<rparr>"

definition sampleFlow :: Flow where
  "sampleFlow =
     \<lparr>scrollWidth = 3200,
      descendants =
        [\<lparr>data_idx = None, clientRects = [], boundingClientRect = \<lparr>left = 24\<rparr>\<rparr>,
         span ''0'' 24, span ''1'' 824, span ''2'' 1624, span ''3'' 1700]\<rparr>"

definition sampleTokens :: "Token list" where
  "sampleTokens =
     [\<lparr>idx = 0, tok_text = ''a''\<rparr>, \<lparr>idx = 1, tok_text = ''b''\<rparr>,
      \<lparr>idx = 2, tok_text = ''c''\<rparr>, \<lparr>idx = 3, tok_text = ''d''\<rparr>]"

definition sampleState :: AppState where
  "sampleState = initialState\<lparr>tokens := sampleTokens, pageCount := 5, pageIndex := 1\<rparr>"

text \<open>Two load results and a store holding a reading state for the first.\<close>

definition resultA :: LoadResult where
  "resultA =
     \<lparr>r_docId = ''url:/a.pdf'', r_tokens = [\<lparr>idx = 0, tok_text = ''alpha''\<rparr>],
      r_paragraphs = [\<lparr>p_id = ''p-0-0'', p_tokens = [\<lparr>idx = 0, tok_text = ''alpha''\<rparr>]\<rparr>],
      r_title = Some ''A''\<rparr>"

definition resultB :: LoadResult where
  "resultB =
     \<lparr>r_docId = ''url:/b.pdf'', r_tokens = [\<lparr>idx = 0, tok_text = ''beta''\<rparr>],
      r_paragraphs = [\<lparr>p_id = ''p-0-0'', p_tokens = [\<lparr>idx = 0, tok_text = ''beta''\<rparr>]\<rparr>],
      r_title = None\<rparr>"

definition sampleStorage :: "number \<Rightarrow> localStorage" where
  "sampleStorage f =
     [''reflow-reader:url:/a.pdf'' \<mapsto>
        Parsed (JObj [(''pageIndex'', JNum 2), (''fontSizePx'', JNum f)])]"

text \<open>
  A flow whose own extent is one page wide while its second token, shifted by the
  viewport's padding, starts past that extent.
\<close>

definition overflowFlow :: Flow where
  "overflowFlow = \<lparr>scrollWidth = 800, descendants = [span ''0'' 24, span ''1'' 804]\<rparr>"

text \<open>
  The flow with no document rendered, and the result of loading a PDF without text from
  the address the store holds a reading state for.
\<close>

definition emptyFlow :: Flow where
  "emptyFlow = \<lparr>scrollWidth = 752, descendants = []\<rparr>"

definition emptyResult :: LoadResult where
  "emptyResult = \<lparr>r_docId = ''url:/a.pdf'', r_tokens = [], r_paragraphs = [], r_title = None\<rparr>"

section \<open>Page count\<close>

text \<open>
  C1. The page count is \<open>max(1, ceil(flowTotalExtent / max(1, viewportWidth)))\<close>. It is at
  least 1 for every non-negative viewport width and flow extent, and it is
  \<open>ceil(flowTotalExtent / viewportWidth)\<close> when both are positive. It depends on nothing but
  the two extents.
\<close>

theorem getPageCount_contract:
  "getPageCount viewport flow =
     max 1 \<lceil>real_of_int (scrollWidth flow) / real_of_int (max 1 (clientWidth viewport))\<rceil>
   \<and> (0 \<le> clientWidth viewport \<and> 0 \<le> scrollWidth flow \<longrightarrow> 1 \<le> getPageCount viewport flow)
   \<and> (0 < clientWidth viewport \<and> 0 < scrollWidth flow \<longrightarrow>
        getPageCount viewport flow
          = \<lceil>real_of_int (scrollWidth flow) / real_of_int (clientWidth viewport)\<rceil>)
   \<and> (clientWidth viewport = clientWidth viewport' \<and> scrollWidth flow = scrollWidth flow' \<longrightarrow>
        getPageCount viewport flow = getPageCount viewport' flow')"
proof -
  have pos: "1 \<le> \<lceil>real_of_int (scrollWidth flow) / real_of_int (clientWidth viewport)\<rceil>"
    if "0 < clientWidth viewport" "0 < scrollWidth flow"
  proof -
    from that have "0 < real_of_int (scrollWidth flow) / real_of_int (clientWidth viewport)"
      by simp
    then show ?thesis by linarith
  qed
  show ?thesis
    using pos by (auto simp: getPageCount_def Let_def max_def)
qed

theorem getPageCount_contract_witness:
  "0 \<le> clientWidth \<lparr>clientWidth = 800, scrollLeft = 0, viewportRect = \<lparr>left = 0\<rparr>\<rparr>
   \<and> 0 < scrollWidth \<lparr>scrollWidth = 2400, descendants = []\<rparr>
   \<and> getPageCount \<lparr>clientWidth = 800, scrollLeft = 0, viewportRect = \<lparr>left = 0\<rparr>\<rparr>
        \<lparr>scrollWidth = 2400, descendants = []\<rparr> = 3"
  using getPageCount_contract
    [of "\<lparr>clientWidth = 800, scrollLeft = 0, viewportRect = \<lparr>left = 0\<rparr>\<rparr>"
        "\<lparr>scrollWidth = 2400, descendants = []\<rparr>"
        "\<lparr>clientWidth = 800, scrollLeft = 0, viewportRect = \<lparr>left = 0\<rparr>\<rparr>"
        "\<lparr>scrollWidth = 2400, descendants = []\<rparr>"]
  by simp

section \<open>Current-page selection\<close>

text \<open>
  C2, as the code has it. In a run of the settle effect on a rendered document (flow and
  viewport mounted, token list not empty) the target page is the pending page index,
  clamped to \<open>[0, pageCount - 1]\<close>, if one is set; otherwise the page the anchor token
  resolves to under the new layout, clamped, if an anchor is set and found; otherwise (no
  anchor, or the anchor token is not found) the previous page index, clamped to the new
  page count. A token that is not found gives the fallback value, not an error. Without
  a flow, a viewport or tokens the run selects no page: it sets the page count to 1 and
  the word count to 0 and leaves the page index and both slots as they were.
\<close>

theorem settle_precedence:
  "(tokens st \<noteq> [] \<longrightarrow>
      (pendingPageRef st = Some p \<longrightarrow>
         snd (settle (Some flow) (Some viewport) st)
           = Some (clamp p 0 (real_of_int (getPageCount viewport flow - 1))))
    \<and> (pendingPageRef st = None \<and> anchorTokenRef st = Some a
         \<and> getTokenPageIndex a flow viewport = Some q \<longrightarrow>
         snd (settle (Some flow) (Some viewport) st)
           = Some (clamp (real_of_int q) 0 (real_of_int (getPageCount viewport flow - 1))))
    \<and> (pendingPageRef st = None \<and> anchorTokenRef st = Some a
         \<and> getTokenPageIndex a flow viewport = None \<longrightarrow>
         snd (settle (Some flow) (Some viewport) st)
           = Some (clamp (pageIndex st) 0 (real_of_int (getPageCount viewport flow - 1))))
    \<and> (pendingPageRef st = None \<and> anchorTokenRef st = None \<longrightarrow>
         snd (settle (Some flow) (Some viewport) st)
           = Some (clamp (pageIndex st) 0 (real_of_int (getPageCount viewport flow - 1))))
    \<and> snd (settle (Some flow) (Some viewport) st)
         = Some (pageIndex (fst (settle (Some flow) (Some viewport) st)))
    \<and> pageCount (fst (settle (Some flow) (Some viewport) st)) = getPageCount viewport flow)
   \<and> (flowRef = None \<or> viewportRef = None \<or> tokens st = [] \<longrightarrow>
        settle flowRef viewportRef st = (st\<lparr>pageCount := 1, wordsOnPage := 0\<rparr>, None))"
proof -
  have main: "tokens st \<noteq> [] \<longrightarrow>
      (pendingPageRef st = Some p \<longrightarrow>
         snd (settle (Some flow) (Some viewport) st)
           = Some (clamp p 0 (real_of_int (getPageCount viewport flow - 1))))
    \<and> (pendingPageRef st = None \<and> anchorTokenRef st = Some a
         \<and> getTokenPageIndex a flow viewport = Some q \<longrightarrow>
         snd (settle (Some flow) (Some viewport) st)
           = Some (clamp (real_of_int q) 0 (real_of_int (getPageCount viewport flow - 1))))
    \<and> (pendingPageRef st = None \<and> anchorTokenRef st = Some a
         \<and> getTokenPageIndex a flow viewport = None \<longrightarrow>
         snd (settle (Some flow) (Some viewport) st)
           = Some (clamp (pageIndex st) 0 (real_of_int (getPageCount viewport flow - 1))))
    \<and> (pendingPageRef st = None \<and> anchorTokenRef st = None \<longrightarrow>
         snd (settle (Some flow) (Some viewport) st)
           = Some (clamp (pageIndex st) 0 (real_of_int (getPageCount viewport flow - 1))))
    \<and> snd (settle (Some flow) (Some viewport) st)
         = Some (pageIndex (fst (settle (Some flow) (Some viewport) st)))
    \<and> pageCount (fst (settle (Some flow) (Some viewport) st)) = getPageCount viewport flow"
    by (simp add: settle_def Let_def split: option.splits)
  have early: "flowRef = None \<or> viewportRef = None \<or> tokens st = [] \<longrightarrow>
        settle flowRef viewportRef st = (st\<lparr>pageCount := 1, wordsOnPage := 0\<rparr>, None)"
    by (auto simp: settle_def split: option.splits)
  from main early show ?thesis by (rule conjI)
qed

theorem settle_precedence_witness:
  "tokens sampleState \<noteq> []
   \<and> snd (settle (Some sampleFlow) (Some sampleViewport)
             (sampleState\<lparr>pendingPageRef := Some 7, anchorTokenRef := Some 2\<rparr>)) = Some 3
   \<and> getTokenPageIndex 2 sampleFlow sampleViewport = Some 2
   \<and> snd (settle (Some sampleFlow) (Some sampleViewport)
             (sampleState\<lparr>anchorTokenRef := Some 2\<rparr>)) = Some 2
   \<and> getTokenPageIndex 9 sampleFlow sampleViewport = None
   \<and> snd (settle (Some sampleFlow) (Some sampleViewport)
             (sampleState\<lparr>anchorTokenRef := Some 9\<rparr>)) = Some 1
   \<and> snd (settle (Some sampleFlow) (Some sampleViewport) sampleState) = Some 1
   \<and> tokens initialState = []
   \<and> settle (Some emptyFlow) (Some sampleViewport) initialState
       = (initialState\<lparr>pageCount := 1, wordsOnPage := 0\<rparr>, None)"
proof -
  have st: "tokens sampleState \<noteq> []" "pendingPageRef sampleState = None"
    "anchorTokenRef sampleState = None" "pageIndex sampleState = 1"
    by (simp_all add: sampleState_def initialState_def sampleTokens_def)
  have g2: "getTokenPageIndex 2 sampleFlow sampleViewport = Some 2"
    by (simp add: getTokenPageIndex_def querySelectorDataIdx_def toStringNat.simps digitOf_def
        sampleFlow_def sampleViewport_def span_def getTokenPageFromElement_def)
  have g9: "getTokenPageIndex 9 sampleFlow sampleViewport = None"
    by (simp add: getTokenPageIndex_def querySelectorDataIdx_def toStringNat.simps digitOf_def
        sampleFlow_def span_def)
  have pc: "getPageCount sampleViewport sampleFlow = 4"
    by (simp add: getPageCount_def sampleFlow_def sampleViewport_def)
  have i0: "tokens initialState = []"
    by (simp add: initialState_def)
  note T = settle_precedence [where flow = sampleFlow and viewport = sampleViewport]
  have 1: "snd (settle (Some sampleFlow) (Some sampleViewport)
             (sampleState\<lparr>pendingPageRef := Some 7, anchorTokenRef := Some 2\<rparr>)) = Some 3"
    using T [where st = "sampleState\<lparr>pendingPageRef := Some 7, anchorTokenRef := Some 2\<rparr>"
        and p = 7]
    by (simp add: pc clamp_def st)
  have 2: "snd (settle (Some sampleFlow) (Some sampleViewport)
             (sampleState\<lparr>anchorTokenRef := Some 2\<rparr>)) = Some 2"
    using T [where st = "sampleState\<lparr>anchorTokenRef := Some 2\<rparr>" and a = 2 and q = 2] g2
    by (simp add: pc clamp_def st)
  have 3: "snd (settle (Some sampleFlow) (Some sampleViewport)
             (sampleState\<lparr>anchorTokenRef := Some 9\<rparr>)) = Some 1"
    using T [where st = "sampleState\<lparr>anchorTokenRef := Some 9\<rparr>" and a = 9] g9
    by (simp add: pc clamp_def st)
  have 4: "snd (settle (Some sampleFlow) (Some sampleViewport) sampleState) = Some 1"
    using T [where st = sampleState] by (simp add: pc clamp_def st)
  have 5: "settle (Some emptyFlow) (Some sampleViewport) initialState
       = (initialState\<lparr>pageCount := 1, wordsOnPage := 0\<rparr>, None)"
    using settle_precedence [where st = initialState and flowRef = "Some emptyFlow"
        and viewportRef = "Some sampleViewport"] i0
    by simp
  show ?thesis using st(1) 1 2 3 4 5 g2 g9 i0 by simp
qed

text \<open>
  A PDF without text is loaded from an address with a stored reading state on page 2. The
  pending page index is set, but the settle chooses no page: the pending index stays in
  its slot and the page index stays 2 while the page count is 1.
\<close>

theorem settle_without_document_counterexample:
  "pendingPageRef (loadResultIntoState (sampleStorage 18) initialState emptyResult) = Some 2
   \<and> snd (settle (Some emptyFlow) (Some sampleViewport)
             (loadResultIntoState (sampleStorage 18) initialState emptyResult)) = None
   \<and> pendingPageRef (fst (settle (Some emptyFlow) (Some sampleViewport)
             (loadResultIntoState (sampleStorage 18) initialState emptyResult))) = Some 2
   \<and> pageIndex (fst (settle (Some emptyFlow) (Some sampleViewport)
             (loadResultIntoState (sampleStorage 18) initialState emptyResult))) = 2
   \<and> pageCount (fst (settle (Some emptyFlow) (Some sampleViewport)
             (loadResultIntoState (sampleStorage 18) initialState emptyResult))) = 1"
proof -
  have r: "restoreReadingState (sampleStorage 18) (r_docId emptyResult)
      = Some \<lparr>rs_pageIndex = 2, fontSizePx = 18\<rparr>"
    by (simp add: restoreReadingState_def sampleStorage_def emptyResult_def STORAGE_PREFIX_def)
  have l: "tokens (loadResultIntoState (sampleStorage 18) initialState emptyResult) = []"
    "pendingPageRef (loadResultIntoState (sampleStorage 18) initialState emptyResult) = Some 2"
    "pageIndex (loadResultIntoState (sampleStorage 18) initialState emptyResult) = 2"
    by (simp_all add: loadResultIntoState_def Let_def r) (simp_all add: emptyResult_def)
  show ?thesis
    by (simp add: settle_def l)
qed

section \<open>Clamping\<close>

lemma clamp_eq_max_min: "lo \<le> hi \<Longrightarrow> clamp v lo hi = max lo (min v hi)"
  by (auto simp: clamp_def max_def min_def)

lemma getPageCount_ge1: "1 \<le> getPageCount viewport flow"
  by (simp add: getPageCount_def Let_def)

lemma settle_pageCount_ge1: "1 \<le> pageCount (fst (settle flowRef viewportRef st))"
  using getPageCount_ge1 by (auto simp: settle_def Let_def split: option.splits)

lemma scrollToPage_clamps:
  assumes "1 \<le> pageCount st"
  shows "scrollToPage (Some viewport) st index
           = Some (max 0 (min index (real_of_int (pageCount st - 1)))
                   * real_of_int (clientWidth viewport))"
proof -
  from assms have "(0::real) \<le> real_of_int (pageCount st - 1)" by simp
  then have "clamp index 0 (max 0 (real_of_int (pageCount st - 1)))
      = max 0 (min index (real_of_int (pageCount st - 1)))"
    by (simp add: clamp_eq_max_min max_absorb2)
  then show ?thesis
    by (simp add: scrollToPage_def scrollToPage_clampedIndex_def)
qed

text \<open>
  C7, as the code has it. At every settle of a rendered document the page count is the
  one computed from the layout and the selected page index is the requested index (the
  pending index, the page of the anchor, or the previous index) clamped by
  \<open>max(0, min(value, pageCount - 1))\<close>: it is at least 0 and less than the page count.
  After any settle the page count is at least 1, and then \<open>scrollToPage\<close>, and with it the
  previous, next and select-page handlers, scrolls to the requested index clamped in the
  same way, times the viewport width. A settle without a flow, a viewport or tokens sets
  the page count to 1 and leaves the page index as it was.
\<close>

theorem settle_pageIndex_in_range:
  "(tokens st \<noteq> [] \<longrightarrow>
      pageCount (fst (settle (Some flow) (Some viewport) st)) = getPageCount viewport flow
    \<and> pageIndex (fst (settle (Some flow) (Some viewport) st))
        = max 0 (min (case pendingPageRef st of
                        Some pending \<Rightarrow> pending
                      | None \<Rightarrow>
                          (case anchorTokenRef st of
                             Some anchor \<Rightarrow>
                               (case getTokenPageIndex anchor flow viewport of
                                  Some anchorPage \<Rightarrow> real_of_int anchorPage
                                | None \<Rightarrow> pageIndex st)
                           | None \<Rightarrow> pageIndex st))
                     (real_of_int (getPageCount viewport flow - 1)))
    \<and> 0 \<le> pageIndex (fst (settle (Some flow) (Some viewport) st))
    \<and> pageIndex (fst (settle (Some flow) (Some viewport) st))
        \<le> real_of_int (pageCount (fst (settle (Some flow) (Some viewport) st)) - 1)
    \<and> pageIndex (fst (settle (Some flow) (Some viewport) st))
        < real_of_int (pageCount (fst (settle (Some flow) (Some viewport) st))))
   \<and> 1 \<le> pageCount (fst (settle flowRef viewportRef st))
   \<and> (1 \<le> pageCount st \<longrightarrow>
        scrollToPage (Some viewport) st index
          = Some (max 0 (min index (real_of_int (pageCount st - 1)))
                  * real_of_int (clientWidth viewport))
      \<and> handlePageSelect (Some viewport) st index
          = Some (max 0 (min index (real_of_int (pageCount st - 1)))
                  * real_of_int (clientWidth viewport))
      \<and> handlePrev (Some viewport) st
          = Some (max 0 (min (pageIndex st - 1) (real_of_int (pageCount st - 1)))
                  * real_of_int (clientWidth viewport))
      \<and> handleNext (Some viewport) st
          = Some (max 0 (min (pageIndex st + 1) (real_of_int (pageCount st - 1)))
                  * real_of_int (clientWidth viewport))
      \<and> 0 \<le> max 0 (min index (real_of_int (pageCount st - 1)))
      \<and> max 0 (min index (real_of_int (pageCount st - 1))) < real_of_int (pageCount st))
   \<and> (flowRef = None \<or> viewportRef = None \<or> tokens st = [] \<longrightarrow>
        pageIndex (fst (settle flowRef viewportRef st)) = pageIndex st
      \<and> pageCount (fst (settle flowRef viewportRef st)) = 1)"
proof -
  let ?pc = "getPageCount viewport flow"
  let ?st' = "fst (settle (Some flow) (Some viewport) st)"
  have hi: "(0::real) \<le> real_of_int (?pc - 1)"
    using getPageCount_ge1 [of viewport flow] by simp
  have main: "pageCount ?st' = ?pc
    \<and> pageIndex ?st'
        = max 0 (min (case pendingPageRef st of
                        Some pending \<Rightarrow> pending
                      | None \<Rightarrow>
                          (case anchorTokenRef st of
                             Some anchor \<Rightarrow>
                               (case getTokenPageIndex anchor flow viewport of
                                  Some anchorPage \<Rightarrow> real_of_int anchorPage
                                | None \<Rightarrow> pageIndex st)
                           | None \<Rightarrow> pageIndex st))
                     (real_of_int (?pc - 1)))
    \<and> 0 \<le> pageIndex ?st'
    \<and> pageIndex ?st' \<le> real_of_int (pageCount ?st' - 1)
    \<and> pageIndex ?st' < real_of_int (pageCount ?st')"
    if doc: "tokens st \<noteq> []"
  proof -
    have pc: "pageCount ?st' = ?pc"
      using doc by (simp add: settle_def Let_def split: option.splits)
    have eq: "pageIndex ?st'
        = clamp (case pendingPageRef st of
                   Some pending \<Rightarrow> pending
                 | None \<Rightarrow>
                     (case anchorTokenRef st of
                        Some anchor \<Rightarrow>
                          (case getTokenPageIndex anchor flow viewport of
                             Some anchorPage \<Rightarrow> real_of_int anchorPage
                           | None \<Rightarrow> pageIndex st)
                      | None \<Rightarrow> pageIndex st)) 0 (real_of_int (?pc - 1))"
      using doc by (simp add: settle_def Let_def split: option.splits)
    have rng: "0 \<le> clamp v 0 (real_of_int (?pc - 1))
        \<and> clamp v 0 (real_of_int (?pc - 1)) \<le> real_of_int (?pc - 1)" for v
      using hi by (auto simp: clamp_def)
    show ?thesis
      unfolding pc eq using rng clamp_eq_max_min [OF hi] by auto
  qed
  have nav: "scrollToPage (Some viewport) st index
          = Some (max 0 (min index (real_of_int (pageCount st - 1)))
                  * real_of_int (clientWidth viewport))
      \<and> handlePageSelect (Some viewport) st index
          = Some (max 0 (min index (real_of_int (pageCount st - 1)))
                  * real_of_int (clientWidth viewport))
      \<and> handlePrev (Some viewport) st
          = Some (max 0 (min (pageIndex st - 1) (real_of_int (pageCount st - 1)))
                  * real_of_int (clientWidth viewport))
      \<and> handleNext (Some viewport) st
          = Some (max 0 (min (pageIndex st + 1) (real_of_int (pageCount st - 1)))
                  * real_of_int (clientWidth viewport))
      \<and> 0 \<le> max 0 (min index (real_of_int (pageCount st - 1)))
      \<and> max 0 (min index (real_of_int (pageCount st - 1))) < real_of_int (pageCount st)"
    if "1 \<le> pageCount st"
    using that
    by (simp add: handlePageSelect_def handlePrev_def handleNext_def scrollToPage_clamps)
  have early: "pageIndex (fst (settle flowRef viewportRef st)) = pageIndex st
      \<and> pageCount (fst (settle flowRef viewportRef st)) = 1"
    if "flowRef = None \<or> viewportRef = None \<or> tokens st = []"
    using that by (auto simp: settle_def split: option.splits)
  show ?thesis
    using main nav early settle_pageCount_ge1 [of flowRef viewportRef st] by blast
qed

theorem settle_pageIndex_in_range_witness:
  "tokens (sampleState\<lparr>pendingPageRef := Some 7\<rparr>) \<noteq> []
   \<and> pageCount (fst (settle (Some sampleFlow) (Some sampleViewport)
                        (sampleState\<lparr>pendingPageRef := Some 7\<rparr>))) = 4
   \<and> pageIndex (fst (settle (Some sampleFlow) (Some sampleViewport)
                        (sampleState\<lparr>pendingPageRef := Some 7\<rparr>))) = 3
   \<and> 1 \<le> pageCount (sampleState\<lparr>pageCount := 3\<rparr>)
   \<and> scrollToPage (Some sampleViewport) (sampleState\<lparr>pageCount := 3\<rparr>) 5 = Some 1600
   \<and> handlePrev (Some sampleViewport) (sampleState\<lparr>pageCount := 3, pageIndex := 0\<rparr>) = Some 0
   \<and> handleNext (Some sampleViewport) (sampleState\<lparr>pageCount := 3, pageIndex := 2\<rparr>)
       = Some 1600
   \<and> tokens initialState = []
   \<and> pageCount (fst (settle (Some emptyFlow) (Some sampleViewport) initialState)) = 1"
proof -
  have st: "tokens sampleState \<noteq> []" "pendingPageRef sampleState = None"
    by (simp_all add: sampleState_def initialState_def sampleTokens_def)
  have pc: "getPageCount sampleViewport sampleFlow = 4"
    by (simp add: getPageCount_def sampleFlow_def sampleViewport_def)
  have cw: "clientWidth sampleViewport = 800"
    by (simp add: sampleViewport_def)
  have i0: "tokens initialState = []"
    by (simp add: initialState_def)
  have 1: "pageCount (fst (settle (Some sampleFlow) (Some sampleViewport)
                        (sampleState\<lparr>pendingPageRef := Some 7\<rparr>))) = 4
      \<and> pageIndex (fst (settle (Some sampleFlow) (Some sampleViewport)
                        (sampleState\<lparr>pendingPageRef := Some 7\<rparr>))) = 3"
    using settle_pageIndex_in_range [where st = "sampleState\<lparr>pendingPageRef := Some 7\<rparr>"
        and flow = sampleFlow and viewport = sampleViewport]
    by (simp add: st pc)
  have 2: "scrollToPage (Some sampleViewport) (sampleState\<lparr>pageCount := 3\<rparr>) 5 = Some 1600"
    using settle_pageIndex_in_range [where st = "sampleState\<lparr>pageCount := 3\<rparr>"
        and viewport = sampleViewport and index = 5]
    by (simp add: cw)
  have 3: "handlePrev (Some sampleViewport) (sampleState\<lparr>pageCount := 3, pageIndex := 0\<rparr>)
      = Some 0"
    using settle_pageIndex_in_range
      [where st = "sampleState\<lparr>pageCount := 3, pageIndex := 0\<rparr>" and viewport = sampleViewport]
    by (simp add: cw)
  have 4: "handleNext (Some sampleViewport) (sampleState\<lparr>pageCount := 3, pageIndex := 2\<rparr>)
      = Some 1600"
    using settle_pageIndex_in_range
      [where st = "sampleState\<lparr>pageCount := 3, pageIndex := 2\<rparr>" and viewport = sampleViewport]
    by (simp add: cw)
  have 5: "pageCount (fst (settle (Some emptyFlow) (Some sampleViewport) initialState)) = 1"
    using settle_pageIndex_in_range [where st = initialState and flowRef = "Some emptyFlow"
        and viewportRef = "Some sampleViewport"] i0
    by simp
  show ?thesis using st(1) 1 2 3 4 5 i0 by simp
qed

text \<open>
  A document of four pages is open on page 3 and the next load fails. The settle that
  follows sets the page count to 1 and keeps the page index 3.
\<close>

theorem settle_after_failed_load_counterexample:
  "pageCount (fst (settle (Some emptyFlow) (Some sampleViewport)
      (handleLoad_settled Map.empty (sampleState\<lparr>pageCount := 4, pageIndex := 3\<rparr>)
         (Rejected NotAnError)))) = 1
   \<and> pageIndex (fst (settle (Some emptyFlow) (Some sampleViewport)
      (handleLoad_settled Map.empty (sampleState\<lparr>pageCount := 4, pageIndex := 3\<rparr>)
         (Rejected NotAnError)))) = 3"
  by (simp add: settle_def handleLoad_settled_def)

section \<open>The anchor slot\<close>

lemma settle_clears_anchor_without_pending:
  "tokens st \<noteq> [] \<Longrightarrow> pendingPageRef st = None \<Longrightarrow>
     anchorTokenRef (fst (settle (Some flow) (Some viewport) st)) = None"
  by (simp add: settle_def Let_def split: option.splits)

text \<open>
  C8. Every settle should leave the anchor slot cleared, so that a captured anchor
  influences one settle at most. The branch that uses an anchor clears it; the branch
  that uses a pending page index does not. With the pending page 0 and the anchor token
  2 both set on page 1, the first run of the effect targets page 0 and keeps the anchor;
  the page index has changed, so the effect runs again, resolves the anchor that was left
  over and targets page 2, away from the page the pending index asked for.
\<close>

theorem settle_pending_leaves_anchor:
  "snd (settle (Some sampleFlow) (Some sampleViewport)
          (sampleState\<lparr>pendingPageRef := Some 0, anchorTokenRef := Some 2\<rparr>)) = Some 0
   \<and> anchorTokenRef (fst (settle (Some sampleFlow) (Some sampleViewport)
          (sampleState\<lparr>pendingPageRef := Some 0, anchorTokenRef := Some 2\<rparr>))) = Some 2
   \<and> pageIndex (fst (settle (Some sampleFlow) (Some sampleViewport)
          (sampleState\<lparr>pendingPageRef := Some 0, anchorTokenRef := Some 2\<rparr>)))
       \<noteq> pageIndex (sampleState\<lparr>pendingPageRef := Some 0, anchorTokenRef := Some 2\<rparr>)
   \<and> snd (settle (Some sampleFlow) (Some sampleViewport)
          (fst (settle (Some sampleFlow) (Some sampleViewport)
             (sampleState\<lparr>pendingPageRef := Some 0, anchorTokenRef := Some 2\<rparr>)))) = Some 2
   \<and> anchorTokenRef (fst (settle (Some sampleFlow) (Some sampleViewport)
          (fst (settle (Some sampleFlow) (Some sampleViewport)
             (sampleState\<lparr>pendingPageRef := Some 0, anchorTokenRef := Some 2\<rparr>))))) = None"
proof -
  have st: "tokens sampleState \<noteq> []" "pageIndex sampleState = 1"
    by (simp_all add: sampleState_def initialState_def sampleTokens_def)
  have g2: "getTokenPageIndex 2 sampleFlow sampleViewport = Some 2"
    by (simp add: getTokenPageIndex_def querySelectorDataIdx_def toStringNat.simps digitOf_def
        sampleFlow_def sampleViewport_def span_def getTokenPageFromElement_def)
  have pc: "getPageCount sampleViewport sampleFlow = 4"
    by (simp add: getPageCount_def sampleFlow_def sampleViewport_def)
  have first: "settle (Some sampleFlow) (Some sampleViewport)
          (sampleState\<lparr>pendingPageRef := Some 0, anchorTokenRef := Some 2\<rparr>)
      = (sampleState\<lparr>pendingPageRef := None, anchorTokenRef := Some 2, pageCount := 4,
                      pageIndex := 0\<rparr>, Some 0)"
    by (simp add: settle_def Let_def st pc clamp_def)
  have second: "settle (Some sampleFlow) (Some sampleViewport)
          (sampleState\<lparr>pendingPageRef := None, anchorTokenRef := Some 2, pageCount := 4,
                      pageIndex := 0\<rparr>)
      = (sampleState\<lparr>pendingPageRef := None, anchorTokenRef := None, pageCount := 4,
                      pageIndex := 2\<rparr>, Some 2)"
    by (simp add: settle_def Let_def st pc g2 clamp_def)
  show ?thesis
    by (simp add: first second st)
qed

section \<open>Document loads\<close>

lemma run_snoc: "run storage st (evs @ [ev]) = step storage (run storage st evs) ev"
  by (simp add: run_def)

text \<open>
  C4, as the code has it. A load completion is applied when it arrives, with no check
  that its load is the last one started: after any run of events, a successful completion
  replaces tokens, paragraphs, document id and title by those of its own result, and sets
  the pending page and the font size from the store or the defaults. Nothing of the state
  before it is merged in. So the load that completes last wins.
\<close>

theorem load_completion_replaces:
  "tokens (run storage st (evs @ [LoadFinish n (Resolved result)])) = r_tokens result
   \<and> paragraphs (run storage st (evs @ [LoadFinish n (Resolved result)])) = r_paragraphs result
   \<and> docId (run storage st (evs @ [LoadFinish n (Resolved result)])) = Some (r_docId result)
   \<and> docTitle (run storage st (evs @ [LoadFinish n (Resolved result)])) = r_title result
   \<and> pendingPageRef (run storage st (evs @ [LoadFinish n (Resolved result)]))
       = Some (case restoreReadingState storage (r_docId result) of
                 Some restored \<Rightarrow> rs_pageIndex restored | None \<Rightarrow> 0)
   \<and> pageIndex (run storage st (evs @ [LoadFinish n (Resolved result)]))
       = (case restoreReadingState storage (r_docId result) of
            Some restored \<Rightarrow> rs_pageIndex restored | None \<Rightarrow> 0)
   \<and> fontSize (run storage st (evs @ [LoadFinish n (Resolved result)]))
       = (case restoreReadingState storage (r_docId result) of
            Some restored \<Rightarrow> fontSizePx restored | None \<Rightarrow> DEFAULT_FONT_SIZE)"
  by (simp add: run_snoc handleLoad_settled_def loadResultIntoState_def Let_def
      split: option.splits)

theorem load_completion_replaces_witness:
  "tokens (run Map.empty initialState
            ([LoadStart 0, LoadStart 1, LoadFinish 0 (Resolved resultA)]
             @ [LoadFinish 1 (Resolved resultB)])) = [\<lparr>idx = 0, tok_text = ''beta''\<rparr>]"
  using load_completion_replaces
    [of Map.empty initialState "[LoadStart 0, LoadStart 1, LoadFinish 0 (Resolved resultA)]"
        1 resultB]
  by (simp add: resultB_def)

text \<open>
  Load 0 starts, load 1 starts, load 1 completes, then load 0 completes: the result of
  load 0, the older one, is what the state holds.
\<close>

theorem stale_load_applied_counterexample:
  "docId (run Map.empty initialState
            [LoadStart 0, LoadStart 1, LoadFinish 1 (Resolved resultB),
             LoadFinish 0 (Resolved resultA)]) = Some (r_docId resultA)
   \<and> tokens (run Map.empty initialState
            [LoadStart 0, LoadStart 1, LoadFinish 1 (Resolved resultB),
             LoadFinish 0 (Resolved resultA)]) = r_tokens resultA
   \<and> r_docId resultA \<noteq> r_docId resultB \<and> r_tokens resultA \<noteq> r_tokens resultB"
  by (simp add: run_def handleLoad_settled_def handleLoad_begin_def loadResultIntoState_def
      restoreReadingState_def resultA_def resultB_def)

text \<open>
  C9. When the loader throws, the token stream, the paragraphs, the document id, the title
  and the word count are cleared, the error slot holds the thrown error's message (or
  \<open>Failed to load PDF\<close> when the thrown value is not an \<open>Error\<close>), and loading is over:
  the handler calls the loader once and starts no other load.
\<close>

theorem handleLoad_failure_resets:
  "tokens (handleLoad_settled storage st (Rejected err)) = []
   \<and> paragraphs (handleLoad_settled storage st (Rejected err)) = []
   \<and> docId (handleLoad_settled storage st (Rejected err)) = None
   \<and> docTitle (handleLoad_settled storage st (Rejected err)) = None
   \<and> wordsOnPage (handleLoad_settled storage st (Rejected err)) = 0
   \<and> error (handleLoad_settled storage st (Rejected err))
       = Some (case err of ErrorObject message \<Rightarrow> message | NotAnError \<Rightarrow> ''Failed to load PDF'')
   \<and> \<not> isLoading (handleLoad_settled storage st (Rejected err))
   \<and> run storage st [LoadStart n, LoadFinish n (Rejected err)]
       = handleLoad_settled storage (handleLoad_begin st) (Rejected err)"
  by (simp add: handleLoad_settled_def run_def)

theorem handleLoad_failure_resets_witness:
  "tokens (handleLoad_settled Map.empty sampleState
             (Rejected (ErrorObject ''Failed to load PDF from URL (404)''))) = []
   \<and> error (handleLoad_settled Map.empty sampleState
             (Rejected (ErrorObject ''Failed to load PDF from URL (404)'')))
       = Some ''Failed to load PDF from URL (404)''
   \<and> tokens sampleState \<noteq> []"
  using handleLoad_failure_resets
    [of Map.empty sampleState "ErrorObject ''Failed to load PDF from URL (404)''" 0]
  by (simp add: sampleState_def sampleTokens_def)

section \<open>Restored reading state\<close>

text \<open>
  C5, as the code has it. A restored \<open>fontSizePx\<close> becomes the current font size as it
  was stored, whatever its value; no clamping is applied. Without a restored state the
  font size is the default 18, which lies between the minimum 14 and the maximum 26.
\<close>

theorem restored_font_used_as_stored:
  "(restoreReadingState storage (r_docId result) = Some restored \<longrightarrow>
      fontSize (loadResultIntoState storage st result) = fontSizePx restored)
   \<and> (restoreReadingState storage (r_docId result) = None \<longrightarrow>
      fontSize (loadResultIntoState storage st result) = DEFAULT_FONT_SIZE
      \<and> MIN_FONT \<le> DEFAULT_FONT_SIZE \<and> DEFAULT_FONT_SIZE \<le> MAX_FONT)"
  by (simp add: loadResultIntoState_def Let_def DEFAULT_FONT_SIZE_def MIN_FONT_def MAX_FONT_def)

theorem restored_font_used_as_stored_witness:
  "restoreReadingState (sampleStorage 20) (r_docId resultA)
     = Some \<lparr>rs_pageIndex = 2, fontSizePx = 20\<rparr>
   \<and> fontSize (loadResultIntoState (sampleStorage 20) initialState resultA) = 20
   \<and> restoreReadingState (sampleStorage 20) (r_docId resultB) = None
   \<and> fontSize (loadResultIntoState (sampleStorage 20) initialState resultB) = 18"
proof -
  have a: "restoreReadingState (sampleStorage 20) (r_docId resultA)
     = Some \<lparr>rs_pageIndex = 2, fontSizePx = 20\<rparr>"
    by (simp add: restoreReadingState_def sampleStorage_def resultA_def STORAGE_PREFIX_def)
  have b: "restoreReadingState (sampleStorage 20) (r_docId resultB) = None"
    by (simp add: restoreReadingState_def sampleStorage_def resultB_def STORAGE_PREFIX_def)
  show ?thesis
    using restored_font_used_as_stored
      [of "sampleStorage 20" resultA "\<lparr>rs_pageIndex = 2, fontSizePx = 20\<rparr>" initialState]
      restored_font_used_as_stored
      [of "sampleStorage 20" resultB undefined initialState] a b
    by (simp add: DEFAULT_FONT_SIZE_def)
qed

text \<open>
  A stored font size of 100 becomes the current font size.
\<close>

theorem restored_font_unclamped_counterexample:
  "\<not> (MIN_FONT \<le> fontSize (loadResultIntoState (sampleStorage 100) initialState resultA)
      \<and> fontSize (loadResultIntoState (sampleStorage 100) initialState resultA) \<le> MAX_FONT)"
  by (simp add: loadResultIntoState_def restoreReadingState_def sampleStorage_def resultA_def
      STORAGE_PREFIX_def MAX_FONT_def)

section \<open>Anchor round trip\<close>

lemma getTokenPageFromElement_nonneg: "0 \<le> getTokenPageFromElement el viewport"
  by (simp add: getTokenPageFromElement_def Let_def)

lemma findAnchorTokenIndex_Some:
  "findAnchorTokenIndex toks flow viewport p = Some t \<Longrightarrow>
     t \<in> idx ` set toks
     \<and> map_option real_of_int (getTokenPageIndex t flow viewport) = Some p"
proof (induction toks)
  case Nil
  then show ?case by simp
next
  case (Cons token rest)
  show ?case
  proof (cases "querySelectorDataIdx flow (toStringNat (idx token))")
    case None
    with Cons show ?thesis by auto
  next
    case (Some el)
    show ?thesis
    proof (cases "real_of_int (getTokenPageFromElement el viewport) = p")
      case True
      with Some Cons.prems have "t = idx token" by simp
      with Some True show ?thesis by (simp add: getTokenPageIndex_def)
    next
      case False
      with Some Cons show ?thesis by auto
    qed
  qed
qed

text \<open>
  C3. Under an unchanged layout, a token index captured as the anchor of page \<open>p\<close>
  resolves to page \<open>p\<close>: if \<open>findAnchorTokenIndex\<close> (and so \<open>captureAnchor\<close>, for the
  current page index) returns \<open>t\<close>, then \<open>getTokenPageIndex\<close> on \<open>t\<close> over the same flow
  and viewport returns \<open>p\<close>.
\<close>

theorem anchor_round_trip:
  "(findAnchorTokenIndex toks flow viewport p = Some t \<longrightarrow>
      map_option real_of_int (getTokenPageIndex t flow viewport) = Some p)
   \<and> (captureAnchor (Some flow) (Some viewport) st = Some t \<longrightarrow>
      map_option real_of_int (getTokenPageIndex t flow viewport) = Some (pageIndex st))"
  using findAnchorTokenIndex_Some [of toks flow viewport p t]
    findAnchorTokenIndex_Some [of "tokens st" flow viewport "pageIndex st" t]
  by (auto simp: captureAnchor_def split: if_splits)

theorem anchor_round_trip_witness:
  "findAnchorTokenIndex sampleTokens sampleFlow sampleViewport 2 = Some 2
   \<and> captureAnchor (Some sampleFlow) (Some sampleViewport) (sampleState\<lparr>pageIndex := 2\<rparr>) = Some 2
   \<and> getTokenPageIndex 2 sampleFlow sampleViewport = Some 2"
proof -
  have f: "findAnchorTokenIndex sampleTokens sampleFlow sampleViewport 2 = Some 2"
    by (simp add: sampleTokens_def sampleFlow_def sampleViewport_def span_def
        querySelectorDataIdx_def toStringNat.simps digitOf_def getTokenPageFromElement_def)
  have c: "captureAnchor (Some sampleFlow) (Some sampleViewport) (sampleState\<lparr>pageIndex := 2\<rparr>)
      = Some 2"
    using f by (simp add: captureAnchor_def sampleState_def initialState_def)
      (simp add: sampleTokens_def)
  show ?thesis
    using anchor_round_trip [of sampleTokens sampleFlow sampleViewport 2 2
        "sampleState\<lparr>pageIndex := 2\<rparr>"] f c
    by auto
qed

section \<open>Word count\<close>

lemma countWordsStep_eq:
  "countWordsStep flow viewport p (max 1 (clientWidth viewport)) (viewportRect viewport) token c
     = c + (if map_option real_of_int (getTokenPageIndex (idx token) flow viewport) = Some p
            then 1 else 0)"
  by (simp add: countWordsStep_def getTokenPageIndex_def getTokenPageFromElement_def Let_def
      split: option.splits)

lemma fold_countWordsStep:
  "fold (countWordsStep flow viewport p (max 1 (clientWidth viewport)) (viewportRect viewport)) ts c
     = c + length (filter (\<lambda>token. map_option real_of_int
                                     (getTokenPageIndex (idx token) flow viewport) = Some p) ts)"
  by (induction ts arbitrary: c) (simp_all add: countWordsStep_eq)

lemma countWordsForPage_filter:
  "countWordsForPage toks flow viewport p
     = length (filter (\<lambda>token. map_option real_of_int
                                  (getTokenPageIndex (idx token) flow viewport) = Some p) toks)"
  by (simp add: countWordsForPage_def Let_def fold_countWordsStep)

lemma countWordsForPage_Cons:
  "countWordsForPage (token # rest) flow viewport p
     = (if map_option real_of_int (getTokenPageIndex (idx token) flow viewport) = Some p
        then 1 else 0)
       + countWordsForPage rest flow viewport p"
  by (simp add: countWordsForPage_filter)

lemma getTokenPageIndex_nonneg: "getTokenPageIndex i flow viewport = Some q \<Longrightarrow> 0 \<le> q"
  by (auto simp: getTokenPageIndex_def getTokenPageFromElement_nonneg split: option.splits)

lemma sum_page_indicator:
  "(\<Sum>p = 0..<n. if map_option real_of_int (getTokenPageIndex i flow viewport) = Some (real p)
                  then 1 else 0)
     = (if (\<exists>q. getTokenPageIndex i flow viewport = Some q \<and> q < int n) then (1::nat) else 0)"
proof (cases "getTokenPageIndex i flow viewport")
  case None
  then show ?thesis by simp
next
  case (Some q)
  then have q: "0 \<le> q" by (rule getTokenPageIndex_nonneg)
  have "(real_of_int q = real p) = (p = nat q)" for p
    using q by (metis nat_int of_int_of_nat_eq of_int_eq_iff int_nat_eq)
  then have "(\<Sum>p = 0..<n. if map_option real_of_int (getTokenPageIndex i flow viewport) = Some (real p)
                  then 1 else 0) = (\<Sum>p = 0..<n. if p = nat q then (1::nat) else 0)"
    using Some by simp
  also have "\<dots> = (if nat q < n then 1 else 0)"
    by (simp add: sum.delta')
  also have "\<dots> = (if q < int n then 1 else 0)"
    using q by (simp add: nat_less_iff)
  finally show ?thesis using Some by simp
qed

lemma sum_countWordsForPage:
  "(\<Sum>p = 0..<n. countWordsForPage toks flow viewport (real p))
     = length (filter (\<lambda>token. \<exists>q. getTokenPageIndex (idx token) flow viewport = Some q \<and> q < int n)
                 toks)"
proof (induction toks)
  case Nil
  then show ?case by (simp add: countWordsForPage_filter)
next
  case (Cons token rest)
  have "(\<Sum>p = 0..<n. countWordsForPage (token # rest) flow viewport (real p))
      = (\<Sum>p = 0..<n. (if map_option real_of_int (getTokenPageIndex (idx token) flow viewport)
                            = Some (real p) then 1 else 0)
                        + countWordsForPage rest flow viewport (real p))"
    by (simp only: countWordsForPage_Cons)
  also have "\<dots> = (\<Sum>p = 0..<n. if map_option real_of_int
                          (getTokenPageIndex (idx token) flow viewport) = Some (real p)
                        then 1 else 0)
                   + (\<Sum>p = 0..<n. countWordsForPage rest flow viewport (real p))"
    by (simp only: sum.distrib)
  also have "\<dots> = (if (\<exists>q. getTokenPageIndex (idx token) flow viewport = Some q \<and> q < int n)
                    then 1 else 0)
                   + length (filter (\<lambda>token. \<exists>q. getTokenPageIndex (idx token) flow viewport
                                       = Some q \<and> q < int n) rest)"
    by (simp only: sum_page_indicator Cons.IH)
  also have "\<dots> = length (filter (\<lambda>token. \<exists>q. getTokenPageIndex (idx token) flow viewport
                                       = Some q \<and> q < int n) (token # rest))"
    by simp
  finally show ?case .
qed

lemma sample_pages:
  "getTokenPageIndex 0 sampleFlow sampleViewport = Some 0"
  "getTokenPageIndex 1 sampleFlow sampleViewport = Some 1"
  "getTokenPageIndex (Suc 0) sampleFlow sampleViewport = Some 1"
  "getTokenPageIndex 2 sampleFlow sampleViewport = Some 2"
  "getTokenPageIndex 3 sampleFlow sampleViewport = Some 2"
  by (simp_all add: getTokenPageIndex_def querySelectorDataIdx_def toStringNat.simps digitOf_def
        sampleFlow_def sampleViewport_def span_def getTokenPageFromElement_def)

text \<open>
  C6, as the code has it. For a fixed layout in which every rendered token is classified
  on a page below the page count, the counts of \<open>countWordsForPage\<close> over the pages
  \<open>0, ..., pageCount - 1\<close> add up to the number of rendered tokens (the tokens whose
  element is found in the flow).
\<close>

theorem word_count_partition:
  assumes "\<forall>token \<in> set toks. \<forall>q. getTokenPageIndex (idx token) flow viewport = Some q \<longrightarrow>
             q < getPageCount viewport flow"
  shows "(\<Sum>p = 0..<nat (getPageCount viewport flow).
            countWordsForPage toks flow viewport (real p))
         = length (filter (\<lambda>token. getTokenPageIndex (idx token) flow viewport \<noteq> None) toks)"
proof -
  have "1 \<le> getPageCount viewport flow" by (simp add: getPageCount_def Let_def)
  then have n: "int (nat (getPageCount viewport flow)) = getPageCount viewport flow" by simp
  have "filter (\<lambda>token. \<exists>q. getTokenPageIndex (idx token) flow viewport = Some q
                          \<and> q < int (nat (getPageCount viewport flow))) toks
      = filter (\<lambda>token. getTokenPageIndex (idx token) flow viewport \<noteq> None) toks"
    using assms unfolding n by (intro filter_cong) auto
  then show ?thesis by (simp add: sum_countWordsForPage)
qed

theorem word_count_partition_witness:
  "map (\<lambda>token. getTokenPageIndex (idx token) sampleFlow sampleViewport) sampleTokens
     = [Some 0, Some 1, Some 2, Some 2]
   \<and> getPageCount sampleViewport sampleFlow = 4
   \<and> (\<Sum>p = 0..<4. countWordsForPage sampleTokens sampleFlow sampleViewport (real p)) = 4"
proof -
  have pc: "getPageCount sampleViewport sampleFlow = 4"
    by (simp add: getPageCount_def sampleFlow_def sampleViewport_def)
  have pages: "map (\<lambda>token. getTokenPageIndex (idx token) sampleFlow sampleViewport) sampleTokens
     = [Some 0, Some 1, Some 2, Some 2]"
    by (simp add: sampleTokens_def sample_pages)
  have h: "\<forall>token \<in> set sampleTokens.
             \<forall>q. getTokenPageIndex (idx token) sampleFlow sampleViewport = Some q
       \<longrightarrow> q < getPageCount sampleViewport sampleFlow"
    by (simp add: pc sampleTokens_def sample_pages)
  show ?thesis
    using word_count_partition [OF h] pages by (simp add: pc sampleTokens_def sample_pages)
qed

text \<open>
  The page count comes from the flow's \<open>scrollWidth\<close> and the page of a token from its
  rectangle; nothing ties the two. Here the second token is on page 1 of a one-page flow
  and is counted on no page.
\<close>

theorem word_count_partition_counterexample:
  "(\<Sum>p = 0..<nat (getPageCount sampleViewport overflowFlow).
      countWordsForPage [\<lparr>idx = 0, tok_text = ''a''\<rparr>, \<lparr>idx = 1, tok_text = ''b''\<rparr>]
        overflowFlow sampleViewport (real p)) = 1
   \<and> length (filter (\<lambda>token. getTokenPageIndex (idx token) overflowFlow sampleViewport \<noteq> None)
        [\<lparr>idx = 0, tok_text = ''a''\<rparr>, \<lparr>idx = 1, tok_text = ''b''\<rparr>]) = 2"
proof -
  have pc: "getPageCount sampleViewport overflowFlow = 1"
    by (simp add: getPageCount_def overflowFlow_def sampleViewport_def)
  have g: "getTokenPageIndex 0 overflowFlow sampleViewport = Some 0"
    "getTokenPageIndex 1 overflowFlow sampleViewport = Some 1"
    "getTokenPageIndex (Suc 0) overflowFlow sampleViewport = Some 1"
    by (simp_all add: getTokenPageIndex_def querySelectorDataIdx_def toStringNat.simps digitOf_def
        overflowFlow_def sampleViewport_def span_def getTokenPageFromElement_def)
  show ?thesis
    by (simp add: pc countWordsForPage_filter g)
qed

section \<open>The two implementations of the Layout Probe\<close>

text \<open>\<open>Number\<close> reads back the decimal rendering of an index, which is never empty.\<close>

lemma digitValue_digitOf: "d < 10 \<Longrightarrow> digitValue (digitOf d) = Some d"
  unfolding digitValue_def digitOf_def
  by (auto simp: less_Suc_eq numeral_eq_Suc elim!: less_SucE)

lemma parseDigits_snoc:
  "parseDigits acc (s @ [c]) =
     (case parseDigits acc s of None \<Rightarrow> None
      | Some a \<Rightarrow> (case digitValue c of None \<Rightarrow> None | Some d \<Rightarrow> Some (10 * a + d)))"
  by (induction s arbitrary: acc) (auto split: option.splits)

lemma jsNumber_toStringNat: "jsNumber (toStringNat n) = Some n"
proof (induction n rule: toStringNat.induct)
  case (1 n)
  show ?case
  proof (cases "n < 10")
    case True
    then show ?thesis
      by (subst toStringNat.simps) (simp add: jsNumber_def digitValue_digitOf)
  next
    case False
    with 1 have "parseDigits 0 (toStringNat (n div 10)) = Some (n div 10)"
      by (simp add: jsNumber_def)
    with False show ?thesis
      by (subst toStringNat.simps) (simp add: jsNumber_def parseDigits_snoc digitValue_digitOf)
  qed
qed

lemma toStringNat_nonempty: "toStringNat n \<noteq> []"
  by (subst toStringNat.simps) simp

lemma toStringNat_inj: "toStringNat m = toStringNat n \<Longrightarrow> m = n"
  by (metis jsNumber_toStringNat option.inject)

lemma find_with_attr:
  "find (\<lambda>el. data_idx el = Some s) (filter (\<lambda>el. data_idx el \<noteq> None) els)
     = find (\<lambda>el. data_idx el = Some s) els"
  by (induction els) auto

lemma querySelectorDataIdx_ordered:
  "querySelectorDataIdx flow s
     = find (\<lambda>el. data_idx el = Some s) (ordered (collectTokenElements flow))"
  by (simp add: querySelectorDataIdx_def collectTokenElements_def Let_def find_with_attr
      del: not_None_eq)

lemma collectStep_apply:
  "collectStep el m i =
     (if (case data_idx el of None \<Rightarrow> None
          | Some rawIdx \<Rightarrow> if rawIdx = [] then None else jsNumber rawIdx) = Some i
      then Some el else m i)"
  by (auto simp: collectStep_def split: option.splits)

lemma fold_collectStep_canonical:
  assumes "map data_idx es = map (\<lambda>token. Some (toStringNat (idx token))) ts"
    and "distinct (map idx ts)"
  shows "fold collectStep es m i
     = (case find (\<lambda>el. data_idx el = Some (toStringNat i)) es of
          Some el \<Rightarrow> Some el | None \<Rightarrow> m i)"
  using assms
proof (induction es arbitrary: ts m)
  case Nil
  then show ?case by simp
next
  case (Cons e es)
  then obtain t ts' where ts: "ts = t # ts'" by (cases ts) auto
  with Cons.prems have e: "data_idx e = Some (toStringNat (idx t))"
    and rest: "map data_idx es = map (\<lambda>token. Some (toStringNat (idx token))) ts'"
    and dist: "distinct (map idx ts')" and notin: "idx t \<notin> idx ` set ts'"
    by auto
  have IH: "fold collectStep es m' i
     = (case find (\<lambda>el. data_idx el = Some (toStringNat i)) es of
          Some el \<Rightarrow> Some el | None \<Rightarrow> m' i)" for m'
    using Cons.IH [OF rest dist] .
  have step: "fold collectStep (e # es) m i
     = (case find (\<lambda>el. data_idx el = Some (toStringNat i)) es of
          Some el \<Rightarrow> Some el | None \<Rightarrow> collectStep e m i)"
    using IH [of "collectStep e m"] by simp
  have here: "collectStep e m i = (if i = idx t then Some e else m i)"
    using e by (auto simp: collectStep_apply toStringNat_nonempty jsNumber_toStringNat)
  have lhs: "fold collectStep (e # es) m i
     = (case find (\<lambda>el. data_idx el = Some (toStringNat i)) es of
          Some el \<Rightarrow> Some el | None \<Rightarrow> if i = idx t then Some e else m i)"
    by (simp only: step here)
  have rhs: "find (\<lambda>el. data_idx el = Some (toStringNat i)) (e # es)
     = (if i = idx t then Some e else find (\<lambda>el. data_idx el = Some (toStringNat i)) es)"
    using e toStringNat_inj by auto
  have none: "find (\<lambda>el. data_idx el = Some (toStringNat i)) es = None" if "i = idx t"
  proof -
    have img: "data_idx ` set es = (\<lambda>token. Some (toStringNat (idx token))) ` set ts'"
      using rest by (metis set_map)
    have "data_idx el \<noteq> Some (toStringNat i)" if "el \<in> set es" for el
    proof -
      from img that obtain tk where tk: "tk \<in> set ts'" "data_idx el = Some (toStringNat (idx tk))"
        by (metis (no_types, lifting) image_iff)
      show ?thesis
      proof
        assume "data_idx el = Some (toStringNat i)"
        with tk have "idx tk = i"
          using toStringNat_inj [of "idx tk" i] by simp
        with tk notin \<open>i = idx t\<close> show False
          by (metis imageI)
      qed
    qed
    then show ?thesis
      by (simp add: find_None_iff)
  qed
  show ?case
    unfolding lhs rhs using none by (auto split: option.splits)
qed

lemma getTokenPageIndex_agree:
  assumes "map data_idx (ordered (collectTokenElements flow))
             = map (\<lambda>token. Some (toStringNat (idx token))) ts"
    and "distinct (map idx ts)"
  shows "getTokenPageIndex_map i (byIndex (collectTokenElements flow)) viewport
           = getTokenPageIndex i flow viewport"
proof -
  have "byIndex (collectTokenElements flow) i
      = fold collectStep (ordered (collectTokenElements flow)) Map.empty i"
    by (simp add: collectTokenElements_def Let_def)
  also have "\<dots> = querySelectorDataIdx flow (toStringNat i)"
    by (simp add: fold_collectStep_canonical [OF assms] querySelectorDataIdx_ordered
        split: option.splits)
  finally show ?thesis
    by (simp add: getTokenPageIndex_map_def getTokenPageIndex_def)
qed


text \<open>Each token's element is the element at the same position of the ordered list.\<close>

lemma tokens_match_ordered:
  assumes attrs: "map data_idx (ordered (collectTokenElements flow))
             = map (\<lambda>token. Some (toStringNat (idx token))) ts"
    and dist: "distinct (map idx ts)"
  shows "list_all2 (\<lambda>token el. querySelectorDataIdx flow (toStringNat (idx token)) = Some el
                       \<and> data_idx el = Some (toStringNat (idx token)))
           ts (ordered (collectTokenElements flow))"
proof -
  let ?es = "ordered (collectTokenElements flow)"
  have len: "length ?es = length ts"
    using attrs by (rule map_eq_imp_length_eq)
  have attr: "data_idx (?es ! j) = Some (toStringNat (idx (ts ! j)))" if "j < length ts" for j
  proof -
    have "map data_idx ?es ! j = map (\<lambda>token. Some (toStringNat (idx token))) ts ! j"
      by (simp only: attrs)
    with that len show ?thesis by simp
  qed
  have found: "find (\<lambda>el. data_idx el = Some (toStringNat (idx (ts ! k)))) ?es = Some (?es ! k)"
    if k: "k < length ts" for k
  proof -
    have "data_idx (?es ! j) \<noteq> Some (toStringNat (idx (ts ! k)))" if "j < k" for j
    proof -
      from dist have "\<forall>a<length ts. \<forall>b<length ts. a \<noteq> b \<longrightarrow> idx (ts ! a) \<noteq> idx (ts ! b)"
        by (simp add: distinct_conv_nth)
      with that k have "idx (ts ! j) \<noteq> idx (ts ! k)" by fastforce
      with that k attr [of j] show ?thesis
        using toStringNat_inj by auto
    qed
    with k len attr [of k] show ?thesis
      unfolding find_Some_iff by (intro exI [of _ k]) simp
  qed
  show ?thesis
    unfolding list_all2_conv_all_nth
    using len attr found by (simp add: querySelectorDataIdx_ordered)
qed

lemma findAnchorTokenIndex_agree:
  assumes "list_all2 (\<lambda>token el. querySelectorDataIdx flow (toStringNat (idx token)) = Some el
                       \<and> data_idx el = Some (toStringNat (idx token))) ts es"
  shows "findAnchorTokenIndex_ordered es viewport p = findAnchorTokenIndex ts flow viewport p"
  using assms
  by (induction ts es rule: list_all2_induct) (simp_all add: jsNumber_toStringNat)

lemma countWordsForPage_ordered_filter:
  "fold (\<lambda>el count. if real_of_int (getTokenPageFromElement el viewport) = p then count + 1
                     else count) es c
     = c + length (filter (\<lambda>el. real_of_int (getTokenPageFromElement el viewport) = p) es)"
  by (induction es arbitrary: c) simp_all

lemma countWordsForPage_agree:
  assumes "list_all2 (\<lambda>token el. querySelectorDataIdx flow (toStringNat (idx token)) = Some el
                       \<and> data_idx el = Some (toStringNat (idx token))) ts es"
  shows "countWordsForPage_ordered es viewport p = countWordsForPage ts flow viewport p"
  using assms
  by (induction ts es rule: list_all2_induct)
    (simp_all add: countWordsForPage_ordered_def countWordsForPage_ordered_filter
      countWordsForPage_filter getTokenPageIndex_def)

text \<open>
  C10. For a flow whose elements with a \<open>data-idx\<close> attribute carry, in document order,
  exactly the decimal indices of the tokens of the token list, each index once, the
  functions that run \<open>querySelector\<close> for each token return the same results as the
  variants over the collected elements: the same page for every token index, the same
  anchor token index and the same count for every page index.
\<close>

theorem layout_probe_variants_agree:
  assumes "map data_idx (ordered (collectTokenElements flow))
             = map (\<lambda>token. Some (toStringNat (idx token))) toks"
    and "distinct (map idx toks)"
  shows "getTokenPageIndex i flow viewport
           = getTokenPageIndex_map i (byIndex (collectTokenElements flow)) viewport
       \<and> findAnchorTokenIndex toks flow viewport p
           = findAnchorTokenIndex_ordered (ordered (collectTokenElements flow)) viewport p
       \<and> countWordsForPage toks flow viewport p
           = countWordsForPage_ordered (ordered (collectTokenElements flow)) viewport p"
  using getTokenPageIndex_agree [OF assms] tokens_match_ordered [OF assms]
  by (simp add: findAnchorTokenIndex_agree countWordsForPage_agree)


theorem layout_probe_variants_agree_witness:
  "map data_idx (ordered (collectTokenElements sampleFlow))
     = map (\<lambda>token. Some (toStringNat (idx token))) sampleTokens
   \<and> distinct (map idx sampleTokens)
   \<and> getTokenPageIndex_map 3 (byIndex (collectTokenElements sampleFlow)) sampleViewport = Some 2
   \<and> findAnchorTokenIndex_ordered (ordered (collectTokenElements sampleFlow)) sampleViewport 2
       = Some 2
   \<and> countWordsForPage_ordered (ordered (collectTokenElements sampleFlow)) sampleViewport 2 = 2"
proof -
  have h1: "map data_idx (ordered (collectTokenElements sampleFlow))
     = map (\<lambda>token. Some (toStringNat (idx token))) sampleTokens"
    by (simp add: collectTokenElements_def sampleFlow_def sampleTokens_def span_def
        toStringNat.simps digitOf_def)
  have h2: "distinct (map idx sampleTokens)"
    by (simp add: sampleTokens_def)
  have a: "getTokenPageIndex 3 sampleFlow sampleViewport = Some 2"
    by (rule sample_pages)
  have b: "findAnchorTokenIndex sampleTokens sampleFlow sampleViewport 2 = Some 2"
    by (simp add: sampleTokens_def sampleFlow_def sampleViewport_def span_def
        querySelectorDataIdx_def toStringNat.simps digitOf_def getTokenPageFromElement_def)
  have c: "countWordsForPage sampleTokens sampleFlow sampleViewport 2 = 2"
    by (simp add: countWordsForPage_filter sampleTokens_def sample_pages)
  show ?thesis
    using layout_probe_variants_agree [OF h1 h2, of 3 sampleViewport 2] h1 h2 a b c
    by simp
qed

end
